theory Spec2Isabelle
  imports Main
begin

section \<open>Data model of pdfStore.ts\<close>

text \<open>
  A JavaScript number holding a page number: an integer, or NaN (what \<open>parseInt\<close>
  gives for a missing or non-numeric attribute).
\<close>

datatype js_number = Num int | NaN

text \<open>
  A page container element of the rendered view. \<open>node_id\<close> is the object identity,
  \<open>dataset_pageNumber\<close> is the number that \<open>parseInt(el.dataset.pageNumber)\<close> reads,
  \<open>isConnected\<close> tells whether the element is still attached to the live document.
\<close>

record html_element =
  node_id :: nat
  dataset_pageNumber :: js_number
  isConnected :: bool

text \<open>
  The values that \<open>offsetReference\<close> may hold and that \<open>document.querySelector\<close> may
  return: \<open>null\<close>, an \<open>HTMLElement\<close>, or some other value that is not an \<open>HTMLElement\<close>.
\<close>

datatype js_value = Null | HTMLElement html_element | OtherValue nat

text \<open>
  The document view: what
  \<open>document.querySelector(`.page[data-page-number="${pageNumber}"]`)\<close> returns for a
  page number at the moment of the call.
\<close>

type_synonym document = "js_number \<Rightarrow> js_value"

text \<open>
  A selector. \<open>None\<close> in \<open>pageNumber\<close> or \<open>offsetReference\<close> means that the key is
  not in the object; \<open>selector_fields\<close> stands for all other keys (quote, start, end,
  range), which the spread \<open>{...selector}\<close> copies.
\<close>

record 'x pdf_selector =
  pageNumber :: "js_number option"
  offsetReference :: "js_value option"
  selector_fields :: 'x

text \<open>
  A target (\<open>annotation\<close> is the id of the owning annotation) and an annotation
  (\<open>id'\<close> is its \<open>id\<close> key).
\<close>

record 'x pdf_target =
  annotation :: string
  selector :: "'x pdf_selector list"
  target_fields :: 'x

record 'x pdf_annotation =
  id' :: string
  target :: "'x pdf_target"
  annotation_fields :: 'x

datatype Origin = LOCAL | REMOTE

datatype 'x console_entry = Warn string "'x pdf_selector"

text \<open>
  The wrapped \<open>TextAnnotationStore\<close>, an external collaborator: its state is of an
  arbitrary type \<open>'st\<close> and its methods are functions on that state. The four
  \<open>orig_\<close> fields are the methods saved as \<open>_addAnnotation\<close>, \<open>_bulkAddAnnotation\<close>,
  \<open>_updateAnnotation\<close> and \<open>_updateTarget\<close> before they are patched. The wrapped
  store has no access to the closure variable \<open>rendered\<close>. \<open>getAnnotation\<close> returns
  \<open>None\<close> for \<open>undefined\<close>, so a batch given to \<open>bulkUpsertAnnotations\<close> is a list of
  optional annotations.
\<close>

record ('st, 'x) annotation_store =
  orig_addAnnotation :: "'x pdf_annotation \<Rightarrow> Origin \<Rightarrow> 'st \<Rightarrow> bool \<times> 'st"
  orig_bulkAddAnnotation ::
    "'x pdf_annotation list \<Rightarrow> bool \<Rightarrow> Origin \<Rightarrow> 'st \<Rightarrow> 'x pdf_annotation list \<times> 'st"
  orig_updateAnnotation :: "'x pdf_annotation \<Rightarrow> Origin \<Rightarrow> 'st \<Rightarrow> 'st"
  orig_updateTarget :: "'x pdf_target \<Rightarrow> Origin \<Rightarrow> 'st \<Rightarrow> 'st"
  getAnnotation :: "string \<Rightarrow> 'st \<Rightarrow> 'x pdf_annotation option"
  bulkUpsertAnnotations :: "'x pdf_annotation option list \<Rightarrow> Origin \<Rightarrow> 'st \<Rightarrow> 'st"

text \<open>
  The state of the adapter made by \<open>createPDFStore\<close>: the map \<open>rendered\<close> (keys are the
  values of \<open>s.pageNumber\<close>, \<open>None\<close> being \<open>undefined\<close>) and the state of the wrapped store.
\<close>

record ('st, 'x) pdf_store =
  rendered :: "js_number option \<rightharpoonup> 'x pdf_annotation list"
  store :: 'st

section \<open>Target reviving\<close>

text \<open>\<open>v instanceof HTMLElement\<close> for a key that may be absent.\<close>

fun instanceof_HTMLElement :: "js_value option \<Rightarrow> html_element option" where
  "instanceof_HTMLElement (Some (HTMLElement el)) = Some el"
| "instanceof_HTMLElement _ = None"

definition hasValidOffsetReference :: "'x pdf_selector \<Rightarrow> bool" where
  "hasValidOffsetReference s = (instanceof_HTMLElement (offsetReference s) \<noteq> None)"

text \<open>
  \<open>reviveSelector\<close> returns the selector together with what it wrote to the console.
\<close>

definition reviveSelector ::
  "document \<Rightarrow> 'x pdf_selector \<Rightarrow> 'x pdf_selector \<times> 'x console_entry list" where
  "reviveSelector doc s =
     (case instanceof_HTMLElement (offsetReference s) of
        Some el \<Rightarrow>
          (case pageNumber s of
             Some n \<Rightarrow> (s, [])
           | None \<Rightarrow> (s\<lparr>pageNumber := Some (dataset_pageNumber el)\<rparr>, []))
      | None \<Rightarrow>
          (case pageNumber s of
             Some n \<Rightarrow> (s\<lparr>offsetReference := Some (doc n)\<rparr>, [])
           | None \<Rightarrow> (s, [Warn ''Invalid PDF selector'' s])))"

definition reviveTarget :: "document \<Rightarrow> 'x pdf_target \<Rightarrow> 'x pdf_target" where
  "reviveTarget doc t = t\<lparr>selector := map (\<lambda>s. fst (reviveSelector doc s)) (selector t)\<rparr>"

definition revive :: "document \<Rightarrow> 'x pdf_annotation \<Rightarrow> 'x pdf_annotation" where
  "revive doc a = a\<lparr>target := reviveTarget doc (target a)\<rparr>"

section \<open>The page index\<close>

text \<open>\<open>rendered.get(p) || []\<close>\<close>

definition indexed ::
  "(js_number option \<rightharpoonup> 'x pdf_annotation list) \<Rightarrow> js_number option \<Rightarrow> 'x pdf_annotation list"
  where
  "indexed r p = (case r p of None \<Rightarrow> [] | Some xs \<Rightarrow> xs)"

definition target_pages :: "'x pdf_target \<Rightarrow> js_number option list" where
  "target_pages t = map pageNumber (selector t)"

definition upsertRenderedAnnotation ::
  "(js_number option \<rightharpoonup> 'x pdf_annotation list) \<Rightarrow> 'x pdf_annotation
     \<Rightarrow> (js_number option \<rightharpoonup> 'x pdf_annotation list)" where
  "upsertRenderedAnnotation r a =
     foldl (\<lambda>r p. r(p \<mapsto> filter (\<lambda>x. id' x \<noteq> id' a) (indexed r p) @ [a]))
       r (target_pages (target a))"

definition updateRenderedTarget ::
  "(js_number option \<rightharpoonup> 'x pdf_annotation list) \<Rightarrow> 'x pdf_target
     \<Rightarrow> (js_number option \<rightharpoonup> 'x pdf_annotation list)" where
  "updateRenderedTarget r t =
     foldl (\<lambda>r p. r(p \<mapsto> map (\<lambda>a. if id' a = annotation t then a\<lparr>target := t\<rparr> else a)
                              (indexed r p)))
       r (target_pages t)"

section \<open>The intercepted methods\<close>

text \<open>A parameter \<open>origin = Origin.LOCAL\<close>: \<open>None\<close> is an omitted argument.\<close>

definition origin_or_local :: "Origin option \<Rightarrow> Origin" where
  "origin_or_local origin = (case origin of None \<Rightarrow> LOCAL | Some v \<Rightarrow> v)"

definition createPDFStore :: "'st \<Rightarrow> ('st, 'x) pdf_store" where
  "createPDFStore st = \<lparr>rendered = Map.empty, store = st\<rparr>"

definition addAnnotation ::
  "('st, 'x) annotation_store \<Rightarrow> document \<Rightarrow> 'x pdf_annotation \<Rightarrow> Origin option
     \<Rightarrow> ('st, 'x) pdf_store \<Rightarrow> bool \<times> ('st, 'x) pdf_store" where
  "addAnnotation w doc a origin s =
     (let revived = revive doc a;
          res = orig_addAnnotation w revived (origin_or_local origin) (store s)
      in (fst res,
          \<lparr>rendered = upsertRenderedAnnotation (rendered s) revived, store = snd res\<rparr>))"

definition bulkAddAnnotation ::
  "('st, 'x) annotation_store \<Rightarrow> document \<Rightarrow> 'x pdf_annotation list \<Rightarrow> bool \<Rightarrow> Origin option
     \<Rightarrow> ('st, 'x) pdf_store \<Rightarrow> 'x pdf_annotation list \<times> ('st, 'x) pdf_store" where
  "bulkAddAnnotation w doc annotations replace origin s =
     (let revived = map (revive doc) annotations;
          res = orig_bulkAddAnnotation w revived replace (origin_or_local origin) (store s)
      in (fst res,
          \<lparr>rendered = foldl upsertRenderedAnnotation (rendered s) revived, store = snd res\<rparr>))"

definition updateAnnotation ::
  "('st, 'x) annotation_store \<Rightarrow> document \<Rightarrow> 'x pdf_annotation \<Rightarrow> Origin option
     \<Rightarrow> ('st, 'x) pdf_store \<Rightarrow> ('st, 'x) pdf_store" where
  "updateAnnotation w doc a origin s =
     (let revived = revive doc a
      in \<lparr>rendered = upsertRenderedAnnotation (rendered s) revived,
          store = orig_updateAnnotation w revived (origin_or_local origin) (store s)\<rparr>)"

definition updateTarget ::
  "('st, 'x) annotation_store \<Rightarrow> document \<Rightarrow> 'x pdf_target \<Rightarrow> Origin option
     \<Rightarrow> ('st, 'x) pdf_store \<Rightarrow> ('st, 'x) pdf_store" where
  "updateTarget w doc t origin s =
     (let revived = reviveTarget doc t
      in \<lparr>rendered = updateRenderedTarget (rendered s) revived,
          store = orig_updateTarget w revived (origin_or_local origin) (store s)\<rparr>)"

section \<open>Resync on lazy rendering\<close>

text \<open>The page given to \<open>onLazyRender\<close> is an integer page number.\<close>

definition neighborhood :: "int \<Rightarrow> int list" where
  "neighborhood page = filter (\<lambda>n. n \<ge> 0) [page - 2, page - 1, page, page + 1, page + 2]"

text \<open>The \<open>reduce\<close> of \<open>onLazyRender\<close>: the index entries of the pages, concatenated.\<close>

definition collect_rendered ::
  "(js_number option \<rightharpoonup> 'x pdf_annotation list) \<Rightarrow> int list \<Rightarrow> 'x pdf_annotation list" where
  "collect_rendered r pages =
     foldl (\<lambda>annotations page. annotations @ indexed r (Some (Num page))) [] pages"

definition toRender ::
  "('st, 'x) annotation_store \<Rightarrow> ('st, 'x) pdf_store \<Rightarrow> int \<Rightarrow> 'x pdf_annotation option list"
  where
  "toRender w s page =
     map (\<lambda>a. getAnnotation w (id' a) (store s))
       (collect_rendered (rendered s) (neighborhood page))"

definition onLazyRender ::
  "('st, 'x) annotation_store \<Rightarrow> int \<Rightarrow> ('st, 'x) pdf_store \<Rightarrow> ('st, 'x) pdf_store" where
  "onLazyRender w page s =
     (let batch = toRender w s page
      in if length batch > 0
         then s\<lparr>store := bulkUpsertAnnotations w batch REMOTE (store s)\<rparr>
         else s)"


section \<open>Sequences of calls\<close>

text \<open>
  One call of a method of the adapter. \<open>StoreCall f\<close> is a call of a method that
  \<open>createPDFStore\<close> passes through unpatched (\<open>deleteAnnotation\<close>, say): it changes the
  state of the wrapped store only.
\<close>

datatype ('st, 'x) call =
    AddAnnotation "'x pdf_annotation" "Origin option"
  | BulkAddAnnotation "'x pdf_annotation list" bool "Origin option"
  | UpdateAnnotation "'x pdf_annotation" "Origin option"
  | UpdateTarget "'x pdf_target" "Origin option"
  | OnLazyRender int
  | StoreCall "'st \<Rightarrow> 'st"

text \<open>A call is made against the document view of its moment.\<close>

fun step ::
  "('st, 'x) annotation_store \<Rightarrow> ('st, 'x) pdf_store \<Rightarrow> document \<times> ('st, 'x) call
     \<Rightarrow> ('st, 'x) pdf_store" where
  "step w s (doc, AddAnnotation a origin) = snd (addAnnotation w doc a origin s)"
| "step w s (doc, BulkAddAnnotation annotations replace origin) =
     snd (bulkAddAnnotation w doc annotations replace origin s)"
| "step w s (doc, UpdateAnnotation a origin) = updateAnnotation w doc a origin s"
| "step w s (doc, UpdateTarget t origin) = updateTarget w doc t origin s"
| "step w s (doc, OnLazyRender page) = onLazyRender w page s"
| "step w s (doc, StoreCall f) = s\<lparr>store := f (store s)\<rparr>"

definition run ::
  "('st, 'x) annotation_store \<Rightarrow> 'st \<Rightarrow> (document \<times> ('st, 'x) call) list
     \<Rightarrow> ('st, 'x) pdf_store" where
  "run w st calls = foldl (step w) (createPDFStore st) calls"

section \<open>A store in memory, for the examples\<close>

text \<open>
  A small stand-in for the wrapped store, used only to evaluate the adapter on
  concrete inputs: it keeps the annotations in a list, rejects an added annotation
  whose id it already holds, and records every call of \<open>bulkUpsertAnnotations\<close>.
\<close>

record 'x memory_store =
  items :: "'x pdf_annotation list"
  upserts :: "('x pdf_annotation option list \<times> Origin) list"

definition memory_known :: "'x memory_store \<Rightarrow> 'x pdf_annotation \<Rightarrow> bool" where
  "memory_known st a = (id' a \<in> set (map id' (items st)))"

definition memory :: "('x memory_store, 'x) annotation_store" where
  "memory =
     \<lparr>orig_addAnnotation = (\<lambda>a origin st.
        if memory_known st a then (False, st) else (True, st\<lparr>items := items st @ [a]\<rparr>)),
      orig_bulkAddAnnotation = (\<lambda>annotations replace origin st.
        (filter (memory_known st) annotations,
         st\<lparr>items := items st @ filter (\<lambda>a. \<not> memory_known st a) annotations\<rparr>)),
      orig_updateAnnotation = (\<lambda>a origin st.
        st\<lparr>items := map (\<lambda>b. if id' b = id' a then a else b) (items st)\<rparr>),
      orig_updateTarget = (\<lambda>t origin st.
        st\<lparr>items := map (\<lambda>b. if id' b = annotation t then b\<lparr>target := t\<rparr> else b) (items st)\<rparr>),
      getAnnotation = (\<lambda>i st. find (\<lambda>a. id' a = i) (items st)),
      bulkUpsertAnnotations = (\<lambda>batch origin st. st\<lparr>upserts := upserts st @ [(batch, origin)]\<rparr>)\<rparr>"

definition memory_delete :: "string \<Rightarrow> 'x memory_store \<Rightarrow> 'x memory_store" where
  "memory_delete i st = st\<lparr>items := filter (\<lambda>a. id' a \<noteq> i) (items st)\<rparr>"

definition memory_empty :: "unit memory_store" where
  "memory_empty = \<lparr>items = [], upserts = []\<rparr>"

text \<open>Example data: a view with no page rendered, and annotations on given pages.\<close>

definition no_pages :: document where
  "no_pages = (\<lambda>n. Null)"

definition on_pages :: "string \<Rightarrow> int list \<Rightarrow> unit pdf_annotation" where
  "on_pages i ps =
     \<lparr>id' = i,
      target = \<lparr>annotation = i,
                selector = map (\<lambda>p. \<lparr>pageNumber = Some (Num p), offsetReference = None,
                                       selector_fields = ()\<rparr>) ps,
                target_fields = ()\<rparr>,
      annotation_fields = ()\<rparr>"

definition stale_element :: html_element where
  "stale_element = \<lparr>node_id = 1, dataset_pageNumber = Num 3, isConnected = False\<rparr>"

definition live_element :: html_element where
  "live_element = \<lparr>node_id = 2, dataset_pageNumber = Num 3, isConnected = True\<rparr>"

definition page3_rendered :: document where
  "page3_rendered = (\<lambda>n. if n = Num 3 then HTMLElement live_element else Null)"

definition stale_selector :: "unit pdf_selector" where
  "stale_selector =
     \<lparr>pageNumber = Some (Num 3), offsetReference = Some (HTMLElement stale_element),
      selector_fields = ()\<rparr>"

text \<open>
  Example states. In \<open>deleted_state\<close> an annotation on page 3 was added and then deleted
  from the wrapped store. In \<open>two_page_state\<close> one annotation touches pages 3 and 4. In
  \<open>moved_state\<close> an annotation on page 3 was moved to page 10 by \<open>updateAnnotation\<close> and
  page 3 was rendered afterwards.
\<close>

definition deleted_state :: "(unit memory_store, unit) pdf_store" where
  "deleted_state =
     run memory memory_empty
       [(no_pages, AddAnnotation (on_pages ''a'' [3]) None),
        (no_pages, StoreCall (memory_delete ''a''))]"

definition two_page_state :: "(unit memory_store, unit) pdf_store" where
  "two_page_state =
     run memory memory_empty [(no_pages, AddAnnotation (on_pages ''a'' [3, 4]) None)]"

definition moved_state :: "(unit memory_store, unit) pdf_store" where
  "moved_state =
     run memory memory_empty
       [(no_pages, AddAnnotation (on_pages ''a'' [3]) None),
        (no_pages, UpdateAnnotation (on_pages ''a'' [10]) None),
        (no_pages, OnLazyRender 3)]"

lemmas example_defs =
  run_def createPDFStore_def addAnnotation_def updateAnnotation_def updateTarget_def
  bulkAddAnnotation_def onLazyRender_def toRender_def collect_rendered_def neighborhood_def
  revive_def reviveTarget_def reviveSelector_def upsertRenderedAnnotation_def
  updateRenderedTarget_def target_pages_def indexed_def origin_or_local_def
  memory_def memory_known_def memory_delete_def memory_empty_def no_pages_def on_pages_def
  Let_def

section \<open>Lemmas on the page index\<close>

lemma indexed_upd:
  "indexed (r(p \<mapsto> xs)) q = (if q = p then xs else indexed r q)"
  by (simp add: indexed_def)

lemma foldl_page_update:
  assumes idem: "\<And>xs. g (g xs) = g xs"
  shows "foldl (\<lambda>r p. r(p \<mapsto> g (indexed r p))) r ps q =
           (if q \<in> set ps then Some (g (indexed r q)) else r q)"
proof (induction ps rule: rev_induct)
  case Nil
  show ?case by simp
next
  case (snoc p ps)
  show ?case
  proof (cases "q = p")
    case True
    then show ?thesis using snoc idem by (simp add: indexed_def)
  next
    case False
    then show ?thesis using snoc by simp
  qed
qed

lemma upsertRenderedAnnotation_at:
  "upsertRenderedAnnotation r a q =
     (if q \<in> set (target_pages (target a))
      then Some (filter (\<lambda>x. id' x \<noteq> id' a) (indexed r q) @ [a]) else r q)"
  unfolding upsertRenderedAnnotation_def
  by (rule foldl_page_update [where g = "\<lambda>xs. filter (\<lambda>x. id' x \<noteq> id' a) xs @ [a]"]) simp

lemma indexed_upsert:
  "indexed (upsertRenderedAnnotation r a) q =
     (if q \<in> set (target_pages (target a))
      then filter (\<lambda>x. id' x \<noteq> id' a) (indexed r q) @ [a] else indexed r q)"
  by (simp add: indexed_def upsertRenderedAnnotation_at)

lemma updateRenderedTarget_at:
  "updateRenderedTarget r t q =
     (if q \<in> set (target_pages t)
      then Some (map (\<lambda>a. if id' a = annotation t then a\<lparr>target := t\<rparr> else a) (indexed r q))
      else r q)"
  unfolding updateRenderedTarget_def
  by (rule foldl_page_update
        [where g = "map (\<lambda>a. if id' a = annotation t then a\<lparr>target := t\<rparr> else a)"])
     (simp add: comp_def if_distrib [of id'] cong: if_cong)

lemma indexed_updateTarget:
  "indexed (updateRenderedTarget r t) q =
     (if q \<in> set (target_pages t)
      then map (\<lambda>a. if id' a = annotation t then a\<lparr>target := t\<rparr> else a) (indexed r q)
      else indexed r q)"
  by (simp add: indexed_def updateRenderedTarget_at)

lemma collect_rendered_concat:
  "collect_rendered r pages = concat (map (\<lambda>q. indexed r (Some (Num q))) pages)"
proof -
  have "foldl (\<lambda>annotations page. annotations @ indexed r (Some (Num page))) acc pages =
          acc @ concat (map (\<lambda>q. indexed r (Some (Num q))) pages)" for acc
    by (induction pages arbitrary: acc) simp_all
  then show ?thesis by (simp add: collect_rendered_def)
qed

lemma toRender_concat:
  "toRender w s page =
     concat (map (\<lambda>q. map (\<lambda>a. getAnnotation w (id' a) (store s))
                            (indexed (rendered s) (Some (Num q))))
               (neighborhood page))"
  by (simp add: toRender_def collect_rendered_concat map_concat comp_def)

lemma set_neighborhood:
  "set (neighborhood page) = {q. 0 \<le> q \<and> page - 2 \<le> q \<and> q \<le> page + 2}"
  by (auto simp: neighborhood_def)

lemma id_revive [simp]: "id' (revive doc a) = id' a"
  by (simp add: revive_def)

lemma annotation_reviveTarget [simp]: "annotation (reviveTarget doc t) = annotation t"
  by (simp add: reviveTarget_def)

lemma reviveSelector_idem:
  "fst (reviveSelector doc (fst (reviveSelector doc s))) = fst (reviveSelector doc s)"
  by (simp add: reviveSelector_def split: option.splits)

lemma distinct_upsert:
  assumes "distinct (map id' (indexed r p))"
  shows "distinct (map id' (indexed (upsertRenderedAnnotation r a) p))"
  using assms by (auto simp: indexed_upsert distinct_map_filter)

lemma distinct_foldl_upsert:
  "distinct (map id' (indexed r p))
     \<Longrightarrow> distinct (map id' (indexed (foldl upsertRenderedAnnotation r rs) p))"
  by (induction rs arbitrary: r) (simp_all add: distinct_upsert)

lemma ids_updateRenderedTarget:
  "map id' (indexed (updateRenderedTarget r t) p) = map id' (indexed r p)"
  by (simp add: indexed_updateTarget comp_def if_distrib [of id'] cong: if_cong)

lemma rendered_onLazyRender: "rendered (onLazyRender w page s) = rendered s"
  by (simp add: onLazyRender_def Let_def)

lemma step_distinct:
  assumes "\<And>p. distinct (map id' (indexed (rendered s) p))"
  shows "distinct (map id' (indexed (rendered (step w s c)) p))"
proof (cases c)
  case (Pair doc call)
  show ?thesis
    using assms unfolding Pair
    by (cases call)
       (simp_all add: addAnnotation_def bulkAddAnnotation_def updateAnnotation_def
          updateTarget_def Let_def distinct_upsert distinct_foldl_upsert
          ids_updateRenderedTarget rendered_onLazyRender)
qed

lemma foldl_step_distinct:
  "(\<And>p. distinct (map id' (indexed (rendered s) p)))
     \<Longrightarrow> distinct (map id' (indexed (rendered (foldl (step w) s calls)) p))"
proof (induction calls arbitrary: s p)
  case Nil
  then show ?case by simp
next
  case (Cons c calls)
  show ?case
    unfolding foldl_Cons
    by (rule Cons.IH) (rule step_distinct, rule Cons.prems)
qed

lemma foldl_upsert_has_id:
  "r0 \<in> set rs \<Longrightarrow> p \<in> set (target_pages (target r0))
     \<Longrightarrow> \<exists>x \<in> set (indexed (foldl upsertRenderedAnnotation r rs) p). id' x = id' r0 \<and> x \<in> set rs"
proof (induction rs rule: rev_induct)
  case Nil
  then show ?case by simp
next
  case (snoc x rs)
  show ?case
  proof (cases "r0 = x \<or> (id' x = id' r0 \<and> p \<in> set (target_pages (target x)))")
    case True
    then show ?thesis using snoc.prems by (auto simp: indexed_upsert)
  next
    case False
    then have "r0 \<in> set rs" using snoc.prems by auto
    from snoc.IH [OF this snoc.prems(2)] obtain y
      where "y \<in> set (indexed (foldl upsertRenderedAnnotation r rs) p)" "id' y = id' r0" "y \<in> set rs"
      by blast
    then show ?thesis using False by (auto simp: indexed_upsert)
  qed
qed

lemma foldl_upsert_keeps:
  "r0 \<in> set (indexed r p)
     \<Longrightarrow> \<forall>b \<in> set rs. id' b = id' r0 \<longrightarrow> p \<notin> set (target_pages (target b))
     \<Longrightarrow> r0 \<in> set (indexed (foldl upsertRenderedAnnotation r rs) p)"
proof (induction rs arbitrary: r)
  case Nil
  then show ?case by simp
next
  case (Cons b rs)
  have "r0 \<in> set (indexed (upsertRenderedAnnotation r b) p)"
    using Cons.prems by (auto simp: indexed_upsert)
  then show ?case using Cons.IH Cons.prems(2) by simp
qed

lemma foldl_upsert_last:
  assumes "p \<in> set (target_pages (target r0))"
    and "\<forall>b \<in> set ys. id' b = id' r0 \<longrightarrow> p \<notin> set (target_pages (target b))"
  shows "r0 \<in> set (indexed (foldl upsertRenderedAnnotation r (xs @ r0 # ys)) p)"
proof -
  have "r0 \<in> set (indexed (upsertRenderedAnnotation (foldl upsertRenderedAnnotation r xs) r0) p)"
    using assms(1) by (simp add: indexed_upsert)
  then show ?thesis using foldl_upsert_keeps [OF _ assms(2)] by simp
qed

lemma count_distinct_id:
  "distinct (map id' xs)
     \<Longrightarrow> length (filter (\<lambda>a. id' a = i) xs) = (if i \<in> set (map id' xs) then 1 else 0)"
  by (induction xs) auto

lemma count_concat_pages:
  "\<forall>q \<in> set qs. distinct (map id' (f q))
     \<Longrightarrow> length (filter (\<lambda>a. id' a = i) (concat (map f qs)))
           = length (filter (\<lambda>q. i \<in> set (map id' (f q))) qs)"
proof (induction qs)
  case Nil
  show ?case by simp
next
  case (Cons q qs)
  then show ?case using count_distinct_id [of "f q" i] by simp
qed

lemma count_refetched:
  assumes "\<forall>j c. g j = Some c \<longrightarrow> id' c = j" and "g i = Some b"
  shows "length (filter (\<lambda>x. x = Some b) (map (\<lambda>a. g (id' a)) xs))
           = length (filter (\<lambda>a. id' a = i) xs)"
proof -
  have "(g (id' a) = Some b) = (id' a = i)" if "a \<in> set xs" for a
    using assms by metis
  then have "filter (\<lambda>a. g (id' a) = Some b) xs = filter (\<lambda>a. id' a = i) xs"
    by (intro filter_cong) simp_all
  then show ?thesis by (simp add: filter_map comp_def)
qed

section \<open>Resync batch\<close>

text \<open>
  C1 (as amended). For every page number, \<open>onLazyRender\<close> re-fetches each annotation
  collected from the neighborhood index by id with \<open>getAnnotation\<close> and discards
  nothing: the batch has one entry per collected index entry, in the same order, the
  entry being exactly what \<open>getAnnotation\<close> returned for that id (\<open>None\<close>, that is
  \<open>undefined\<close>, when the id is not found), and this batch is what
  \<open>bulkUpsertAnnotations\<close> receives with the remote origin whenever something was
  collected.
\<close>

theorem onLazyRender_batch_unfiltered:
  "length (toRender w s page) = length (collect_rendered (rendered s) (neighborhood page))
   \<and> (\<forall>i < length (toRender w s page).
        toRender w s page ! i
          = getAnnotation w (id' (collect_rendered (rendered s) (neighborhood page) ! i)) (store s))
   \<and> store (onLazyRender w page s)
       = (if collect_rendered (rendered s) (neighborhood page) = [] then store s
          else bulkUpsertAnnotations w (toRender w s page) REMOTE (store s))"
  by (simp add: toRender_def onLazyRender_def Let_def)

text \<open>
  The amended C1 on \<open>deleted_state\<close>, page 3: one id was collected, the store does not
  find it, and the batch is the one-element list holding \<open>None\<close>.
\<close>

theorem onLazyRender_batch_unfiltered_witness:
  "length (toRender memory deleted_state 3) = 1
   \<and> toRender memory deleted_state 3 ! 0 = None
   \<and> store (onLazyRender memory 3 deleted_state)
       = bulkUpsertAnnotations memory [None] REMOTE (store deleted_state)"
  using onLazyRender_batch_unfiltered [of memory deleted_state 3]
  by (simp add: deleted_state_def example_defs)

text \<open>
  C1 as the specification states it fails: after an annotation on page 3 has been added
  and then deleted from the wrapped store, \<open>onLazyRender(3)\<close> calls
  \<open>bulkUpsertAnnotations\<close> once, and the batch holds the not-found result.
\<close>

theorem not_found_counterexample:
  "upserts (store (onLazyRender memory 3 deleted_state)) = [([None], REMOTE)]"
  by (simp add: deleted_state_def example_defs)

text \<open>
  C2 (as amended). The batch that \<open>onLazyRender\<close> passes to \<open>bulkUpsertAnnotations\<close>
  is not deduplicated by annotation id. When each page entry of the neighborhood holds
  an id at most once and the store returns under an id only an annotation with that
  id, an annotation that the store finds under the id \<open>i\<close> occurs in the batch exactly as
  many times as there are pages of the neighborhood under which \<open>i\<close> is indexed, every
  occurrence being the annotation re-fetched from the store.
\<close>

theorem onLazyRender_batch_not_deduplicated:
  assumes "\<forall>q \<in> set (neighborhood page). distinct (map id' (indexed (rendered s) (Some (Num q))))"
    and "\<forall>j c. getAnnotation w j (store s) = Some c \<longrightarrow> id' c = j"
    and "getAnnotation w i (store s) = Some b"
  shows "length (filter (\<lambda>x. x = Some b) (toRender w s page))
           = length (filter (\<lambda>q. i \<in> set (map id' (indexed (rendered s) (Some (Num q)))))
                       (neighborhood page))
         \<and> store (onLazyRender w page s)
           = (if toRender w s page = [] then store s
              else bulkUpsertAnnotations w (toRender w s page) REMOTE (store s))"
proof -
  have "length (filter (\<lambda>x. x = Some b) (toRender w s page))
          = length (filter (\<lambda>a. id' a = i) (collect_rendered (rendered s) (neighborhood page)))"
    unfolding toRender_def
    by (rule count_refetched [where g = "\<lambda>j. getAnnotation w j (store s)"]) (use assms in auto)
  also have "\<dots> = length (filter (\<lambda>q. i \<in> set (map id' (indexed (rendered s) (Some (Num q)))))
                       (neighborhood page))"
    using count_concat_pages [OF assms(1), of i] by (simp add: collect_rendered_concat)
  finally show ?thesis by (simp add: onLazyRender_def Let_def)
qed

text \<open>
  The amended C2 on \<open>two_page_state\<close>, page 3: the annotation is indexed under pages 3
  and 4, the store finds it, and the batch given to \<open>bulkUpsertAnnotations\<close> holds it
  twice.
\<close>

theorem onLazyRender_batch_not_deduplicated_witness:
  "getAnnotation memory ''a'' (store two_page_state) = Some (revive no_pages (on_pages ''a'' [3, 4]))
   \<and> length (filter (\<lambda>x. x = Some (revive no_pages (on_pages ''a'' [3, 4])))
               (toRender memory two_page_state 3)) = 2
   \<and> store (onLazyRender memory 3 two_page_state)
       = bulkUpsertAnnotations memory (toRender memory two_page_state 3) REMOTE (store two_page_state)"
proof -
  have h1: "\<forall>q \<in> set (neighborhood 3).
             distinct (map id' (indexed (rendered two_page_state) (Some (Num q))))"
    by (simp add: two_page_state_def example_defs)
  have h2: "\<forall>j c. getAnnotation memory j (store two_page_state) = Some c \<longrightarrow> id' c = j"
    by (simp add: two_page_state_def example_defs)
  have h3: "getAnnotation memory ''a'' (store two_page_state)
              = Some (revive no_pages (on_pages ''a'' [3, 4]))"
    by (simp add: two_page_state_def example_defs)
  show ?thesis
    using h3 onLazyRender_batch_not_deduplicated [OF h1 h2 h3]
    by (simp add: two_page_state_def example_defs)
qed

text \<open>
  C2 as the specification states it fails: an annotation touching pages 3 and 4 is passed
  twice to \<open>bulkUpsertAnnotations\<close> by \<open>onLazyRender(3)\<close>.
\<close>

theorem duplicate_counterexample:
  "upserts (store (onLazyRender memory 3 two_page_state))
     = [([Some (revive no_pages (on_pages ''a'' [3, 4])),
          Some (revive no_pages (on_pages ''a'' [3, 4]))], REMOTE)]"
  by (simp add: two_page_state_def example_defs)

section \<open>Reviving\<close>

text \<open>
  C3 (as amended). A selector that carries a page number together with an element
  reference that is an \<open>HTMLElement\<close>, connected or not, is returned unchanged: the
  reference is kept without a check of connectedness. The page-number path (the lookup
  of the element rendered for the page number) is taken only when the selector has no
  \<open>offsetReference\<close> that is an \<open>HTMLElement\<close>.
\<close>

theorem reviveSelector_trusts_element:
  "(offsetReference s = Some (HTMLElement el) \<and> pageNumber s = Some n
      \<longrightarrow> reviveSelector doc s = (s, []))
   \<and> (instanceof_HTMLElement (offsetReference s) = None \<and> pageNumber s = Some n
      \<longrightarrow> reviveSelector doc s = (s\<lparr>offsetReference := Some (doc n)\<rparr>, []))"
  by (simp add: reviveSelector_def)

text \<open>
  The amended C3 on a selector for page 3 with a disconnected element, while another
  element is rendered for page 3: the stale reference stays; with \<open>null\<close> in its place
  the rendered element is looked up.
\<close>

theorem reviveSelector_trusts_element_witness:
  "\<not> isConnected stale_element
   \<and> reviveSelector page3_rendered stale_selector = (stale_selector, [])
   \<and> reviveSelector page3_rendered (stale_selector\<lparr>offsetReference := Some Null\<rparr>)
       = (stale_selector\<lparr>offsetReference := Some (HTMLElement live_element)\<rparr>, [])"
  using reviveSelector_trusts_element
          [of stale_selector stale_element "Num 3" page3_rendered]
        reviveSelector_trusts_element
          [of "stale_selector\<lparr>offsetReference := Some Null\<rparr>" stale_element "Num 3" page3_rendered]
  by (simp add: stale_selector_def stale_element_def page3_rendered_def)

text \<open>
  C3 as the specification states it fails: for the selector with page number 3 and the
  disconnected element, reviving does not behave as for the selector carrying only the
  page number; the result still refers to the disconnected element.
\<close>

theorem stale_reference_counterexample:
  "\<not> isConnected stale_element
   \<and> fst (reviveSelector page3_rendered stale_selector)
       \<noteq> fst (reviveSelector page3_rendered (stale_selector\<lparr>offsetReference := None\<rparr>))
   \<and> offsetReference (fst (reviveSelector page3_rendered stale_selector))
       = Some (HTMLElement stale_element)"
  by (simp add: reviveSelector_def stale_selector_def stale_element_def page3_rendered_def
        live_element_def)

text \<open>
  C4. Reviving is idempotent under an unchanged document view (the same \<open>doc\<close> in both
  calls): for selectors, for targets and for annotations, reviving the revived value
  gives an equal value. Equality is that of the values, with NaN equal to NaN.
\<close>

theorem revive_idempotent:
  "fst (reviveSelector doc (fst (reviveSelector doc s))) = fst (reviveSelector doc s)
   \<and> reviveTarget doc (reviveTarget doc t) = reviveTarget doc t
   \<and> revive doc (revive doc a) = revive doc a"
  by (simp add: reviveSelector_idem reviveTarget_def revive_def comp_def)

section \<open>The index and the resync\<close>

text \<open>
  C5 (as amended). \<open>onLazyRender\<close> only reads the page index: after it completes, the
  index is the same as before, for every page; no entry is removed or corrected by the
  resync.
\<close>

theorem onLazyRender_leaves_index:
  "rendered (onLazyRender w page s) = rendered s"
  by (simp add: onLazyRender_def Let_def)

text \<open>
  C5 as the specification states it fails: an annotation added on page 3 is moved to
  page 10 by \<open>updateAnnotation\<close>; after \<open>onLazyRender(3)\<close> has pushed the store's
  annotation (target on page 10) back to the store, the entry of page 3 still holds the
  annotation with its old target.
\<close>

theorem resync_counterexample:
  "indexed (rendered moved_state) (Some (Num 3)) = [revive no_pages (on_pages ''a'' [3])]
   \<and> getAnnotation memory ''a'' (store moved_state) = Some (revive no_pages (on_pages ''a'' [10]))
   \<and> target_pages (target (revive no_pages (on_pages ''a'' [10]))) = [Some (Num 10)]
   \<and> upserts (store moved_state) = [([Some (revive no_pages (on_pages ''a'' [10]))], REMOTE)]"
  by (simp add: moved_state_def example_defs)

text \<open>
  C6 (as amended). For every list of annotations and every wrapped store,
  \<open>bulkAddAnnotation\<close> gives the revived annotations to the store, returns the store's
  list of failed annotations unchanged, and upserts every revived annotation into the
  page index in the order of the list, whatever the store returned: under every page
  that a revived annotation touches the index then holds an entry of the list with that
  annotation's id, and it holds the revived annotation itself unless a later annotation
  of the same list with the same id touches that page too (the later upsert then
  replaces it).
\<close>

theorem bulkAddAnnotation_records_all:
  "fst (bulkAddAnnotation w doc annotations replace origin s)
     = fst (orig_bulkAddAnnotation w (map (revive doc) annotations) replace
              (origin_or_local origin) (store s))
   \<and> store (snd (bulkAddAnnotation w doc annotations replace origin s))
     = snd (orig_bulkAddAnnotation w (map (revive doc) annotations) replace
              (origin_or_local origin) (store s))
   \<and> rendered (snd (bulkAddAnnotation w doc annotations replace origin s))
     = foldl upsertRenderedAnnotation (rendered s) (map (revive doc) annotations)
   \<and> (\<forall>a \<in> set annotations. \<forall>p \<in> set (target_pages (target (revive doc a))).
        \<exists>x \<in> set (indexed (rendered (snd (bulkAddAnnotation w doc annotations replace origin s))) p).
          id' x = id' a \<and> x \<in> set (map (revive doc) annotations))
   \<and> (\<forall>xs a ys p. annotations = xs @ a # ys
          \<and> p \<in> set (target_pages (target (revive doc a)))
          \<and> (\<forall>b \<in> set ys. id' b = id' a \<longrightarrow> p \<notin> set (target_pages (target (revive doc b))))
        \<longrightarrow> revive doc a
              \<in> set (indexed (rendered (snd (bulkAddAnnotation w doc annotations replace origin s))) p))"
proof -
  let ?r = "foldl upsertRenderedAnnotation (rendered s) (map (revive doc) annotations)"
  have r: "rendered (snd (bulkAddAnnotation w doc annotations replace origin s)) = ?r"
    by (simp add: bulkAddAnnotation_def Let_def)
  have a: "\<forall>a \<in> set annotations. \<forall>p \<in> set (target_pages (target (revive doc a))).
        \<exists>x \<in> set (indexed ?r p). id' x = id' a \<and> x \<in> set (map (revive doc) annotations)"
  proof (intro ballI)
    fix a p
    assume "a \<in> set annotations" "p \<in> set (target_pages (target (revive doc a)))"
    then show "\<exists>x \<in> set (indexed ?r p). id' x = id' a \<and> x \<in> set (map (revive doc) annotations)"
      using foldl_upsert_has_id [of "revive doc a" "map (revive doc) annotations" p "rendered s"]
      by simp
  qed
  have b: "\<forall>xs a ys p. annotations = xs @ a # ys
          \<and> p \<in> set (target_pages (target (revive doc a)))
          \<and> (\<forall>b \<in> set ys. id' b = id' a \<longrightarrow> p \<notin> set (target_pages (target (revive doc b))))
        \<longrightarrow> revive doc a \<in> set (indexed ?r p)"
  proof (intro allI impI, elim conjE)
    fix xs a ys p
    assume eq: "annotations = xs @ a # ys"
      and p: "p \<in> set (target_pages (target (revive doc a)))"
      and later: "\<forall>b \<in> set ys. id' b = id' a \<longrightarrow> p \<notin> set (target_pages (target (revive doc b)))"
    have "\<forall>b \<in> set (map (revive doc) ys).
            id' b = id' (revive doc a) \<longrightarrow> p \<notin> set (target_pages (target b))"
      using later by simp
    from foldl_upsert_last [OF p this, of "rendered s" "map (revive doc) xs"]
    show "revive doc a \<in> set (indexed ?r p)" by (simp add: eq)
  qed
  show ?thesis
    unfolding r using a b by (simp add: bulkAddAnnotation_def Let_def)
qed

text \<open>
  The amended C6 on \<open>two_page_state\<close>, whose store already holds the id \<open>a\<close>: the store rejects the
  new annotation \<open>a\<close> on page 5 and returns it as failed, and the index records it under
  page 5 all the same.
\<close>

theorem bulkAddAnnotation_records_all_witness:
  "fst (bulkAddAnnotation memory no_pages [on_pages ''a'' [5], on_pages ''b'' [4]] False None
          two_page_state)
     = [revive no_pages (on_pages ''a'' [5])]
   \<and> revive no_pages (on_pages ''a'' [5])
       \<in> set (indexed (rendered (snd (bulkAddAnnotation memory no_pages
                 [on_pages ''a'' [5], on_pages ''b'' [4]] False None two_page_state)))
               (Some (Num 5)))"
proof -
  note t = bulkAddAnnotation_records_all
             [of memory no_pages "[on_pages ''a'' [5], on_pages ''b'' [4]]" False None two_page_state]
  have h: "[on_pages ''a'' [5], on_pages ''b'' [4]] = [] @ on_pages ''a'' [5] # [on_pages ''b'' [4]]
      \<and> Some (Num 5) \<in> set (target_pages (target (revive no_pages (on_pages ''a'' [5]))))
      \<and> (\<forall>b \<in> set [on_pages ''b'' [4]]. id' b = id' (on_pages ''a'' [5] :: unit pdf_annotation)
            \<longrightarrow> Some (Num 5) \<notin> set (target_pages (target (revive no_pages b))))"
    by (simp add: example_defs)
  have "revive no_pages (on_pages ''a'' [5])
       \<in> set (indexed (rendered (snd (bulkAddAnnotation memory no_pages
                 [on_pages ''a'' [5], on_pages ''b'' [4]] False None two_page_state)))
               (Some (Num 5)))"
    using t h by blast
  moreover have "fst (bulkAddAnnotation memory no_pages
                        [on_pages ''a'' [5], on_pages ''b'' [4]] False None two_page_state)
                   = [revive no_pages (on_pages ''a'' [5])]"
    using t by (simp add: two_page_state_def example_defs)
  ultimately show ?thesis by simp
qed

text \<open>
  C6 as the specification states it fails: when a list holds an annotation on pages 3
  and 4 followed by an annotation with the same id on page 3, the first revived
  annotation is not in the index under page 3 afterwards, though it touches that page;
  the entry holds the second one only.
\<close>

theorem bulk_same_id_counterexample:
  "Some (Num 3) \<in> set (target_pages (target (revive no_pages (on_pages ''a'' [3, 4]))))
   \<and> revive no_pages (on_pages ''a'' [3, 4])
       \<notin> set (indexed (rendered (snd (bulkAddAnnotation memory no_pages
                 [on_pages ''a'' [3, 4], on_pages ''a'' [3]] False None
                 (createPDFStore memory_empty))))
               (Some (Num 3)))
   \<and> indexed (rendered (snd (bulkAddAnnotation memory no_pages
                 [on_pages ''a'' [3, 4], on_pages ''a'' [3]] False None
                 (createPDFStore memory_empty))))
       (Some (Num 3))
     = [revive no_pages (on_pages ''a'' [3])]"
  by (simp add: example_defs)

text \<open>
  C7. For every page number, \<open>onLazyRender\<close> consults the index for exactly the pages
  \<open>page - 2\<close> to \<open>page + 2\<close> that are not negative: the batch that it gives to
  \<open>bulkUpsertAnnotations\<close> is made of the entries of these pages, in this order, and
  neither the batch nor the effect of \<open>onLazyRender\<close> on the store changes when the index
  changes elsewhere. For page 5 these are the pages 3 to 7, for page 0 the pages 0 to 2.
\<close>

theorem onLazyRender_neighborhood:
  "set (neighborhood page) = {q. 0 \<le> q \<and> page - 2 \<le> q \<and> q \<le> page + 2}
   \<and> neighborhood 5 = [3, 4, 5, 6, 7]
   \<and> neighborhood 0 = [0, 1, 2]
   \<and> toRender w s page =
       concat (map (\<lambda>q. map (\<lambda>a. getAnnotation w (id' a) (store s))
                              (indexed (rendered s) (Some (Num q))))
                 (neighborhood page))
   \<and> store (onLazyRender w page s)
       = (if toRender w s page = [] then store s
          else bulkUpsertAnnotations w (toRender w s page) REMOTE (store s))
   \<and> (store s' = store s
       \<and> (\<forall>q \<in> set (neighborhood page).
             indexed (rendered s') (Some (Num q)) = indexed (rendered s) (Some (Num q)))
       \<longrightarrow> toRender w s' page = toRender w s page
           \<and> store (onLazyRender w page s') = store (onLazyRender w page s))"
proof -
  have b: "store s' = store s
       \<and> (\<forall>q \<in> set (neighborhood page).
             indexed (rendered s') (Some (Num q)) = indexed (rendered s) (Some (Num q)))
       \<longrightarrow> toRender w s' page = toRender w s page"
    unfolding toRender_concat by (auto intro!: arg_cong [where f = concat])
  have d: "store (onLazyRender w page t)
       = (if toRender w t page = [] then store t
          else bulkUpsertAnnotations w (toRender w t page) REMOTE (store t))" for t
    by (simp add: onLazyRender_def Let_def)
  have e: "store s' = store s \<and> toRender w s' page = toRender w s page
             \<longrightarrow> store (onLazyRender w page s') = store (onLazyRender w page s)"
    by (simp add: d)
  have c: "neighborhood 5 = [3, 4, 5, 6, 7]" "neighborhood 0 = [0, 1, 2]"
    by (simp_all add: neighborhood_def)
  show ?thesis
    using toRender_concat [of w s page] b c d [of s] e set_neighborhood [of page] by blast
qed

text \<open>
  C7 on \<open>two_page_state\<close>, page 5: an entry put under page 9 does not change what
  \<open>onLazyRender\<close> gives to \<open>bulkUpsertAnnotations\<close>, which is what is indexed under
  pages 3 and 4.
\<close>

theorem onLazyRender_neighborhood_witness:
  "upserts (store (onLazyRender memory 5
     (two_page_state\<lparr>rendered := (rendered two_page_state)(Some (Num 9) \<mapsto> [on_pages ''b'' [9]])\<rparr>)))
   = upserts (store (onLazyRender memory 5 two_page_state))
   \<and> upserts (store (onLazyRender memory 5 two_page_state))
   = [([Some (revive no_pages (on_pages ''a'' [3, 4])),
        Some (revive no_pages (on_pages ''a'' [3, 4]))], REMOTE)]"
proof -
  let ?s' = "two_page_state\<lparr>rendered := (rendered two_page_state)(Some (Num 9) \<mapsto> [on_pages ''b'' [9]])\<rparr>"
  have h: "store ?s' = store two_page_state
       \<and> (\<forall>q \<in> set (neighborhood 5).
             indexed (rendered ?s') (Some (Num q)) = indexed (rendered two_page_state) (Some (Num q)))"
    by (simp add: neighborhood_def indexed_def)
  have "store (onLazyRender memory 5 ?s') = store (onLazyRender memory 5 two_page_state)"
    using h onLazyRender_neighborhood [of 5 memory two_page_state ?s'] by blast
  moreover have "upserts (store (onLazyRender memory 5 two_page_state))
   = [([Some (revive no_pages (on_pages ''a'' [3, 4])),
        Some (revive no_pages (on_pages ''a'' [3, 4]))], REMOTE)]"
    by (simp add: two_page_state_def example_defs)
  ultimately show ?thesis by simp
qed

text \<open>
  C8. For every target, \<open>updateTarget\<close> rewrites the entry of each page touched by the
  revived target by replacing, in place, the target of every indexed annotation whose id
  is the target's \<open>annotation\<close>, all other annotations of the entry staying as they are;
  pages that the revived target does not touch keep their entry; no entry gains or
  loses an annotation, and where no annotation with that id was indexed the list of
  indexed annotations is the same as before (a touched page without an entry gets the
  empty list, which is what the code reads for a page without an entry).
\<close>

theorem updateTarget_in_place:
  "(\<forall>p \<in> set (target_pages (reviveTarget doc t)).
      rendered (updateTarget w doc t origin s) p
        = Some (map (\<lambda>a. if id' a = annotation t then a\<lparr>target := reviveTarget doc t\<rparr> else a)
                  (indexed (rendered s) p)))
   \<and> (\<forall>p. p \<notin> set (target_pages (reviveTarget doc t))
        \<longrightarrow> rendered (updateTarget w doc t origin s) p = rendered s p)
   \<and> (\<forall>p. annotation t \<notin> set (map id' (indexed (rendered s) p))
        \<longrightarrow> indexed (rendered (updateTarget w doc t origin s)) p = indexed (rendered s) p)
   \<and> (\<forall>p. length (indexed (rendered (updateTarget w doc t origin s)) p)
            = length (indexed (rendered s) p))"
proof -
  have r: "rendered (updateTarget w doc t origin s)
             = updateRenderedTarget (rendered s) (reviveTarget doc t)"
    by (simp add: updateTarget_def Let_def)
  have same: "annotation t \<notin> set (map id' xs)
     \<Longrightarrow> map (\<lambda>a. if id' a = annotation t then a\<lparr>target := u\<rparr> else a) xs = xs" for xs u
    by (induction xs) auto
  show ?thesis
    unfolding r by (simp add: updateRenderedTarget_at indexed_updateTarget same)
qed

text \<open>
  C8 on \<open>two_page_state\<close>: a new target on page 3 for the annotation \<open>a\<close> replaces the
  target of the entry under page 3 and leaves page 4 alone; a target for an id that is
  not indexed leaves the entry of page 3 as it is.
\<close>

theorem updateTarget_in_place_witness:
  "indexed (rendered (updateTarget memory no_pages (target (on_pages ''a'' [3])) None two_page_state))
       (Some (Num 3))
     = [(revive no_pages (on_pages ''a'' [3, 4]))
          \<lparr>target := reviveTarget no_pages (target (on_pages ''a'' [3]))\<rparr>]
   \<and> rendered (updateTarget memory no_pages (target (on_pages ''a'' [3])) None two_page_state)
       (Some (Num 4))
     = rendered two_page_state (Some (Num 4))
   \<and> indexed (rendered (updateTarget memory no_pages (target (on_pages ''z'' [3])) None two_page_state))
       (Some (Num 3))
     = [revive no_pages (on_pages ''a'' [3, 4])]"
proof -
  note t1 = updateTarget_in_place [of no_pages "target (on_pages ''a'' [3])" memory None two_page_state]
  note t2 = updateTarget_in_place [of no_pages "target (on_pages ''z'' [3])" memory None two_page_state]
  have h1: "Some (Num 3) \<in> set (target_pages (reviveTarget no_pages (target (on_pages ''a'' [3]))))"
    by (simp add: example_defs)
  have h2: "Some (Num 4) \<notin> set (target_pages (reviveTarget no_pages (target (on_pages ''a'' [3]))))"
    by (simp add: example_defs)
  have i3: "indexed (rendered two_page_state) (Some (Num 3)) = [revive no_pages (on_pages ''a'' [3, 4])]"
    by (simp add: two_page_state_def example_defs)
  have h3: "annotation (target (on_pages ''z'' [3]))
              \<notin> set (map id' (indexed (rendered two_page_state) (Some (Num 3))))"
    unfolding i3 by (simp add: example_defs)
  have a: "rendered (updateTarget memory no_pages (target (on_pages ''a'' [3])) None two_page_state)
             (Some (Num 3))
           = Some (map (\<lambda>a. if id' a = annotation (target (on_pages ''a'' [3]))
                          then a\<lparr>target := reviveTarget no_pages (target (on_pages ''a'' [3]))\<rparr> else a)
                    (indexed (rendered two_page_state) (Some (Num 3))))"
    using t1 h1 by blast
  have b: "rendered (updateTarget memory no_pages (target (on_pages ''a'' [3])) None two_page_state)
             (Some (Num 4)) = rendered two_page_state (Some (Num 4))"
    using t1 h2 by blast
  have c: "indexed (rendered (updateTarget memory no_pages (target (on_pages ''z'' [3])) None
             two_page_state)) (Some (Num 3)) = indexed (rendered two_page_state) (Some (Num 3))"
    using t2 h3 by blast
  have a': "indexed (rendered (updateTarget memory no_pages (target (on_pages ''a'' [3])) None
              two_page_state)) (Some (Num 3))
           = [(revive no_pages (on_pages ''a'' [3, 4]))
                \<lparr>target := reviveTarget no_pages (target (on_pages ''a'' [3]))\<rparr>]"
    using a unfolding i3 by (simp add: indexed_def on_pages_def revive_def)
  show ?thesis using a' b c i3 by simp
qed

text \<open>
  C9. For every selector that has no page number and no \<open>offsetReference\<close> that is an
  \<open>HTMLElement\<close>, reviving writes one warning to the console and returns the selector
  itself, with all that it carries; there is no failing branch.
\<close>

theorem reviveSelector_neither:
  assumes "pageNumber s = None" and "instanceof_HTMLElement (offsetReference s) = None"
  shows "reviveSelector doc s = (s, [Warn ''Invalid PDF selector'' s])"
  using assms by (simp add: reviveSelector_def)

text \<open>
  C9 on a selector that carries a quote, \<open>null\<close> as \<open>offsetReference\<close>, and no page
  number.
\<close>

theorem reviveSelector_neither_witness:
  "reviveSelector page3_rendered
     \<lparr>pageNumber = None, offsetReference = Some Null, selector_fields = ''quote''\<rparr>
   = (\<lparr>pageNumber = None, offsetReference = Some Null, selector_fields = ''quote''\<rparr>,
      [Warn ''Invalid PDF selector''
         \<lparr>pageNumber = None, offsetReference = Some Null, selector_fields = ''quote''\<rparr>])"
  using reviveSelector_neither
    [of "\<lparr>pageNumber = None, offsetReference = Some Null, selector_fields = ''quote''\<rparr>"
        page3_rendered]
  by simp

text \<open>
  C10. After any sequence of calls of the adapter made from the empty index
  (\<open>addAnnotation\<close>, \<open>bulkAddAnnotation\<close>, \<open>updateAnnotation\<close>, \<open>updateTarget\<close>, and also
  \<open>onLazyRender\<close> and the methods passed through to the wrapped store), with any wrapped
  store and any document views, the list indexed under any page holds at most one
  annotation per annotation id.
\<close>

theorem index_one_entry_per_id:
  "distinct (map id' (indexed (rendered (run w st calls)) p))"
  unfolding run_def
  by (rule foldl_step_distinct) (simp add: createPDFStore_def indexed_def)

end
